theory Spec2Isabelle
  imports Complex_Main "HOL-Library.List_Lexorder" "HOL-Library.Product_Lexorder"
begin

section \<open>Strings and the Unicode services of the Python library\<close>

text \<open>
  A Python \<open>str\<close> is a sequence of Unicode code points. It is modelled as a list of
  natural numbers; \<open>u\<close> turns an ASCII literal into such a list. Python compares strings
  code point by code point, which is the lexicographic order on lists.
\<close>

type_synonym cp = nat
type_synonym ustr = "cp list"

definition u :: "string \<Rightarrow> ustr" where
  "u s = map of_char s"

text \<open>
  \<open>analiseRip.py\<close> calls \<open>unicodedata.normalize("NFD", s)\<close>,
  \<open>unicodedata.category(ch)\<close>, \<open>str.strip()\<close> and \<open>str.lower()\<close>. Their tables belong
  to the Python library, not to the program, so the program is modelled over any such
  tables: \<open>category_Mn ch\<close> stands for \<open>unicodedata.category(ch) == "Mn"\<close>, and
  \<open>isspace\<close> is the set of characters that \<open>strip()\<close> removes from both ends.
\<close>

record unicode =
  normalize_NFD :: "ustr \<Rightarrow> ustr"
  category_Mn :: "cp \<Rightarrow> bool"
  isspace :: "cp \<Rightarrow> bool"
  lower :: "ustr \<Rightarrow> ustr"

definition strip :: "unicode \<Rightarrow> ustr \<Rightarrow> ustr" where
  "strip U s = rev (dropWhile (isspace U) (rev (dropWhile (isspace U) s)))"

text \<open>
  The tables of Python 3 restricted to the code points U+0000..U+00FF: the canonical
  decompositions of the accented Latin-1 letters, the combining marks U+0300..U+036F
  (all of category Mn), the whitespace characters and the lower-case mapping. On a
  string of code points below U+0100 these agree with Python; they are used to run the
  program on concrete inputs.
\<close>

definition latin1_decomp :: "(cp \<times> ustr) list" where
  "latin1_decomp =
    [(192, [65, 768]), (193, [65, 769]), (194, [65, 770]), (195, [65, 771]),
     (196, [65, 776]), (197, [65, 778]), (199, [67, 807]), (200, [69, 768]),
     (201, [69, 769]), (202, [69, 770]), (203, [69, 776]), (204, [73, 768]),
     (205, [73, 769]), (206, [73, 770]), (207, [73, 776]), (209, [78, 771]),
     (210, [79, 768]), (211, [79, 769]), (212, [79, 770]), (213, [79, 771]),
     (214, [79, 776]), (217, [85, 768]), (218, [85, 769]), (219, [85, 770]),
     (220, [85, 776]), (221, [89, 769]), (224, [97, 768]), (225, [97, 769]),
     (226, [97, 770]), (227, [97, 771]), (228, [97, 776]), (229, [97, 778]),
     (231, [99, 807]), (232, [101, 768]), (233, [101, 769]), (234, [101, 770]),
     (235, [101, 776]), (236, [105, 768]), (237, [105, 769]), (238, [105, 770]),
     (239, [105, 776]), (241, [110, 771]), (242, [111, 768]), (243, [111, 769]),
     (244, [111, 770]), (245, [111, 771]), (246, [111, 776]), (249, [117, 768]),
     (250, [117, 769]), (251, [117, 770]), (252, [117, 776]), (253, [121, 769]),
     (255, [121, 776])]"

definition latin1_nfd :: "ustr \<Rightarrow> ustr" where
  "latin1_nfd s =
     concat (map (\<lambda>c. case map_of latin1_decomp c of Some d \<Rightarrow> d | None \<Rightarrow> [c]) s)"

definition latin1_lower_cp :: "cp \<Rightarrow> cp" where
  "latin1_lower_cp c =
     (if (65 \<le> c \<and> c \<le> 90) \<or> (192 \<le> c \<and> c \<le> 222 \<and> c \<noteq> 215) then c + 32 else c)"

definition latin1_isspace :: "cp \<Rightarrow> bool" where
  "latin1_isspace c \<longleftrightarrow> (9 \<le> c \<and> c \<le> 13) \<or> (28 \<le> c \<and> c \<le> 32) \<or> c = 133 \<or> c = 160"

definition latin1 :: unicode where
  "latin1 = \<lparr> normalize_NFD = latin1_nfd,
              category_Mn = (\<lambda>c. 768 \<le> c \<and> c \<le> 879),
              isspace = latin1_isspace,
              lower = map latin1_lower_cp \<rparr>"

section \<open>Month normalizer (lines 22--36)\<close>

text \<open>
  A column label of a data frame need not be a \<open>str\<close>. A label that is not one is
  represented by the text that \<open>str()\<close> gives for it.
\<close>

datatype pyobj = PStr ustr | PNonStr ustr

definition strip_accents :: "unicode \<Rightarrow> ustr \<Rightarrow> ustr" where
  "strip_accents U s = filter (\<lambda>ch. \<not> category_Mn U ch) (normalize_NFD U s)"

definition mapa :: "(ustr \<times> ustr) list" where
  "mapa =
    [(u ''jan'', u ''Janeiro''), (u ''fev'', u ''Fevereiro''), (u ''mar'', u ''Marco''),
     (u ''abr'', u ''Abril''), (u ''mai'', u ''Maio''), (u ''jun'', u ''Junho''),
     (u ''jul'', u ''Julho''), (u ''ago'', u ''Agosto''), (u ''set'', u ''Setembro''),
     (u ''out'', u ''Outubro''), (u ''nov'', u ''Novembro''), (u ''dez'', u ''Dezembro'')]"

text \<open>The lookup key of a string: \<open>s = _strip_accents(name).strip().lower(); key = s[:3]\<close>.\<close>

definition month_key :: "unicode \<Rightarrow> ustr \<Rightarrow> ustr" where
  "month_key U name = take 3 (lower U (strip U (strip_accents U name)))"

definition canonical_month :: "unicode \<Rightarrow> pyobj \<Rightarrow> ustr" where
  "canonical_month U name =
     (case name of
        PNonStr t \<Rightarrow> t
      | PStr n \<Rightarrow> (case map_of mapa (month_key U n) of Some m \<Rightarrow> m | None \<Rightarrow> n))"

text \<open>
  The normalizer as section 4.1 of the specification words it: accents stripped, the
  string lower-cased, the first three characters looked up, the input returned when the
  prefix is not in the table. No trimming of whitespace is mentioned there.
\<close>

definition spec_key :: "unicode \<Rightarrow> ustr \<Rightarrow> ustr" where
  "spec_key U name = take 3 (lower U (strip_accents U name))"

definition canonicalize_spec :: "unicode \<Rightarrow> pyobj \<Rightarrow> ustr" where
  "canonicalize_spec U name =
     (case name of
        PNonStr t \<Rightarrow> t
      | PStr n \<Rightarrow> (case map_of mapa (spec_key U n) of Some m \<Rightarrow> m | None \<Rightarrow> n))"

definition ordem_meses :: "ustr list" where
  "ordem_meses =
    [u ''Janeiro'', u ''Fevereiro'', u ''Marco'', u ''Abril'', u ''Maio'', u ''Junho'',
     u ''Julho'', u ''Agosto'', u ''Setembro'', u ''Outubro'', u ''Novembro'', u ''Dezembro'']"

section \<open>The loaded sheet and the outcome of a run\<close>

text \<open>
  The data frame as it stands after lines 46--49: the column labels, and one row per
  line of the sheet, holding the cell of the first column (the indicator name, or
  nothing) and the cells of the remaining columns (numbers, or nothing). Numbers are
  exact rationals; a float's binary rounding error and its negative zero are outside
  the model.
\<close>

record row =
  ind :: "ustr option"
  vals :: "rat option list"

record frame =
  columns :: "pyobj list"
  rows :: "row list"

text \<open>A data frame is rectangular; a cell beyond the end of a short row is a missing value.\<close>

definition cell :: "row \<Rightarrow> nat \<Rightarrow> rat option" where
  "cell r j = (if j < length (vals r) then vals r ! j else None)"

text \<open>
  A run either dies with an uncaught exception, or ends at \<open>st.stop()\<close>, or renders the
  table. Every \<open>st.warning\<close> shown on the way is recorded, in order.
\<close>

datatype failure = IndexError | ValueError

datatype notice = OddMonthColumns | TooFewIndicators | NoMatchingData

type_synonym key = "ustr \<times> ustr"

record merged =
  mcols :: "ustr list"
  mrows :: "(key \<times> rat option list) list"

datatype outcome = Crashed failure | Stopped | Rendered merged

section \<open>Renaming the columns in pairs (lines 52--64)\<close>

text \<open>
  The loop \<open>for i in range(0, len(mes_cols), 2)\<close> reads \<open>mes_cols[i]\<close> only, and appends
  two names for it.
\<close>

fun pair_names :: "unicode \<Rightarrow> pyobj list \<Rightarrow> ustr list" where
  "pair_names U [] = []"
| "pair_names U [a] =
     [canonical_month U a @ u ''.Hibrido'', canonical_month U a @ u ''.Zebu'']"
| "pair_names U (a # b # rest) =
     (canonical_month U a @ u ''.Hibrido'') # (canonical_month U a @ u ''.Zebu'')
       # pair_names U rest"

definition mes_cols_of :: "pyobj list \<Rightarrow> pyobj list" where
  "mes_cols_of rest = (if length rest mod 2 \<noteq> 0 then butlast rest else rest)"

text \<open>
  \<open>novos_nomes\<close> is kept without its first entry, \<open>indicador_col\<close>, which is
  counted in the length test. The assignment \<open>df.columns = novos_nomes\<close>
  raises \<open>ValueError\<close> when the list does not have one name per column of the frame.
\<close>

definition rename_columns :: "unicode \<Rightarrow> frame \<Rightarrow> notice list \<times> (failure + ustr list)" where
  "rename_columns U df =
     (case columns df of
        [] \<Rightarrow> ([], Inl IndexError)
      | indicador_col # rest \<Rightarrow>
          (let w = (if length rest mod 2 \<noteq> 0 then [OddMonthColumns] else []);
               novos_nomes = pair_names U (mes_cols_of rest)
           in if Suc (length novos_nomes) \<noteq> length (columns df)
              then (w, Inl ValueError)
              else (w, Inr novos_nomes)))"

section \<open>Long format (lines 67--73)\<close>

record long =
  indicador :: "ustr option"
  Mes_nome :: ustr
  Raca :: ustr
  Valor :: "rat option"

text \<open>\<open>melt\<close>: one record per value column and row, column by column.\<close>

definition melt :: "ustr list \<Rightarrow> row list \<Rightarrow> (ustr option \<times> ustr \<times> rat option) list" where
  "melt nomes rws =
     concat (map (\<lambda>(j, nm). map (\<lambda>r. (ind r, nm, cell r j)) rws) (enumerate 0 nomes))"

text \<open>\<open>str.split(".", n=1)\<close>: the text before the first dot, and the text after it if there is a dot.\<close>

definition split_dot :: "ustr \<Rightarrow> ustr \<times> ustr option" where
  "split_dot s =
     (takeWhile (\<lambda>c. c \<noteq> 46) s,
      case dropWhile (\<lambda>c. c \<noteq> 46) s of [] \<Rightarrow> None | d # t \<Rightarrow> Some t)"

definition racas :: "ustr list" where
  "racas = [u ''Zebu'', u ''Hibrido'']"

definition df_final_of :: "ustr list \<Rightarrow> row list \<Rightarrow> long list" where
  "df_final_of nomes rws =
     concat (map (\<lambda>(i, nm, v).
        case split_dot nm of
          (m, None) \<Rightarrow> []
        | (m, Some b) \<Rightarrow>
            if b \<in> set racas
            then [\<lparr>indicador = i, Mes_nome = m, Raca = b, Valor = v\<rparr>] else [])
       (melt nomes rws))"

section \<open>Filters (lines 76--93)\<close>

definition meses_disponiveis :: "long list \<Rightarrow> ustr list" where
  "meses_disponiveis df_final =
     filter (\<lambda>m. m \<in> set (map Mes_nome df_final)) ordem_meses"

definition indicadores :: "long list \<Rightarrow> ustr list" where
  "indicadores df_final =
     sort (remdups (concat (map (\<lambda>r. case indicador r of None \<Rightarrow> [] | Some i \<Rightarrow> [i]) df_final)))"

text \<open>
  What the user has picked in each \<open>st.multiselect\<close>: nothing yet (the widget returns
  its default), or a list of options, each at most once, in the order they were picked.
\<close>

record ui =
  pick_indicadores :: "ustr list option"
  pick_meses :: "ustr list option"
  pick_racas :: "ustr list option"

definition multiselect :: "'a list \<Rightarrow> 'a list \<Rightarrow> 'a list option \<Rightarrow> 'a list" where
  "multiselect opts dflt picked = (case picked of None \<Rightarrow> dflt | Some xs \<Rightarrow> xs)"

definition indicadores_selec :: "long list \<Rightarrow> ui \<Rightarrow> ustr list" where
  "indicadores_selec df_final g =
     multiselect (indicadores df_final)
       [indicadores df_final ! 0, indicadores df_final ! 1] (pick_indicadores g)"

definition meses_escolhidos :: "long list \<Rightarrow> ui \<Rightarrow> ustr list" where
  "meses_escolhidos df_final g =
     multiselect (meses_disponiveis df_final) (meses_disponiveis df_final) (pick_meses g)"

definition racas_escolhidas :: "ui \<Rightarrow> ustr list" where
  "racas_escolhidas g = multiselect racas racas (pick_racas g)"

section \<open>The table with one value column per indicator (lines 100--108)\<close>

definition df_ind :: "long list \<Rightarrow> ustr list \<Rightarrow> ustr list \<Rightarrow> ustr \<Rightarrow> (key \<times> rat option) list" where
  "df_ind df_final meses rcs i =
     map (\<lambda>r. ((Mes_nome r, Raca r), Valor r))
       (filter (\<lambda>r. indicador r = Some i \<and> Mes_nome r \<in> set meses \<and> Raca r \<in> set rcs)
          df_final)"

text \<open>
  \<open>pd.merge(..., on=["Mes_nome","Raca"], how="outer")\<close>: every left row is paired with
  every right row of the same key, or with a missing value when there is none; a right
  row whose key no left row has comes with missing values in all the left columns. The
  order in which pandas leaves the rows is not modelled (lines 114--116 sort them).
\<close>

definition outer_merge :: "merged \<Rightarrow> ustr \<Rightarrow> (key \<times> rat option) list \<Rightarrow> merged" where
  "outer_merge m nm right =
     \<lparr>mcols = mcols m @ [nm],
      mrows =
        concat (map (\<lambda>(k, vs).
            (let ms = filter (\<lambda>(k', v). k' = k) right
             in if ms = [] then [(k, vs @ [None])] else map (\<lambda>(k', v). (k, vs @ [v])) ms))
          (mrows m))
        @ map (\<lambda>(k', v). (k', replicate (length (mcols m)) None @ [v]))
            (filter (\<lambda>(k', v). k' \<notin> fst ` set (mrows m)) right)\<rparr>"

definition valor_col :: "ustr \<Rightarrow> ustr" where
  "valor_col i = u ''Valor_'' @ i"

fun merge_loop ::
  "long list \<Rightarrow> ustr list \<Rightarrow> ustr list \<Rightarrow> merged option \<Rightarrow> ustr list \<Rightarrow> merged option" where
  "merge_loop df_final meses rcs df_merge [] = df_merge"
| "merge_loop df_final meses rcs df_merge (i # rest) =
     merge_loop df_final meses rcs
       (Some (case df_merge of
                None \<Rightarrow> \<lparr>mcols = [valor_col i],
                          mrows = map (\<lambda>(k, v). (k, [v])) (df_ind df_final meses rcs i)\<rparr>
              | Some m \<Rightarrow> outer_merge m (valor_col i) (df_ind df_final meses rcs i)))
       rest"

section \<open>Ordering, rounding and display (lines 114--154)\<close>

text \<open>
  The code of a month in \<open>pd.Categorical(..., categories=meses_escolhidos, ordered=True)\<close>
  is its position in the list; a value that is not a category becomes missing, and
  \<open>sort_values\<close> puts missing values last.
\<close>

definition cat_code :: "ustr list \<Rightarrow> ustr \<Rightarrow> nat" where
  "cat_code cats m = length (takeWhile (\<lambda>c. c \<noteq> m) cats)"

definition sort_values :: "ustr list \<Rightarrow> merged \<Rightarrow> merged" where
  "sort_values cats m =
     m\<lparr>mrows := sort_key (\<lambda>(k, vs). (cat_code cats (fst k), snd k)) (mrows m)\<rparr>"

text \<open>\<open>round(x, 2)\<close>: to the nearest hundredth, a tie to the even one.\<close>

definition round_half_even :: "rat \<Rightarrow> int" where
  "round_half_even y =
     (let f = \<lfloor>y\<rfloor>; d = y - of_int f
      in if d < 1 / 2 then f else if 1 / 2 < d then f + 1
         else if even f then f else f + 1)"

definition round2 :: "rat \<Rightarrow> rat" where
  "round2 x = of_int (round_half_even (x * 100)) / 100"

definition df_show :: "merged \<Rightarrow> merged" where
  "df_show m = m\<lparr>mrows := map (\<lambda>(k, vs). (k, map (map_option round2) vs)) (mrows m)\<rparr>"

fun digits :: "nat \<Rightarrow> ustr" where
  "digits n = (if n < 10 then [48 + n] else digits (n div 10) @ [48 + n mod 10])"

text \<open>
  \<open>"{:.2f}".format\<close>, which \<open>format_dict\<close> gives for every value column and the styler
  applies to every cell of it, the missing ones too (no \<open>na_rep\<close> is passed): a missing
  value is the float \<open>nan\<close>, and its text is \<open>nan\<close>.
\<close>

definition format_2f :: "rat option \<Rightarrow> ustr" where
  "format_2f x =
     (case x of
        None \<Rightarrow> u ''nan''
      | Some q \<Rightarrow>
          (let c = round_half_even (q * 100); a = nat \<bar>c\<bar>
           in (if c < 0 then u ''-'' else []) @ digits (a div 100) @ u ''.''
                @ [48 + (a div 10) mod 10, 48 + a mod 10]))"

definition html_table :: "merged \<Rightarrow> ustr list list" where
  "html_table m = map (\<lambda>(k, vs). fst k # snd k # map format_2f vs) (mrows m)"

section \<open>The whole run\<close>

definition render :: "long list \<Rightarrow> ui \<Rightarrow> notice list \<times> outcome" where
  "render df_final g =
     (if length (indicadores df_final) < 2 then ([], Crashed IndexError)
      else if length (indicadores_selec df_final g) < 2 then ([TooFewIndicators], Stopped)
      else (case merge_loop df_final (meses_escolhidos df_final g) (racas_escolhidas g) None
                   (indicadores_selec df_final g) of
              None \<Rightarrow> ([NoMatchingData], Stopped)
            | Some df_merge \<Rightarrow>
                if mrows df_merge = [] then ([NoMatchingData], Stopped)
                else ([], Rendered (df_show (sort_values (meses_escolhidos df_final g) df_merge)))))"

definition app :: "unicode \<Rightarrow> frame \<Rightarrow> ui \<Rightarrow> notice list \<times> outcome" where
  "app U df g =
     (case rename_columns U df of
        (w, Inl e) \<Rightarrow> (w, Crashed e)
      | (w, Inr nomes) \<Rightarrow>
          (case render (df_final_of nomes (rows df)) g of (w', out) \<Rightarrow> (w @ w', out)))"

section \<open>Notions used to state the properties\<close>

text \<open>The long table that lines 52--73 build from a sheet whose columns can be renamed.\<close>

definition df_final :: "unicode \<Rightarrow> frame \<Rightarrow> long list" where
  "df_final U df = df_final_of (pair_names U (mes_cols_of (tl (columns df)))) (rows df)"

text \<open>
  The selections of a run on a sheet, and the records that the filter of lines 102--106
  keeps for an indicator in that run.
\<close>

abbreviation selected :: "unicode \<Rightarrow> frame \<Rightarrow> ui \<Rightarrow> ustr list" where
  "selected U df g \<equiv> indicadores_selec (df_final U df) g"

abbreviation months :: "unicode \<Rightarrow> frame \<Rightarrow> ui \<Rightarrow> ustr list" where
  "months U df g \<equiv> meses_escolhidos (df_final U df) g"


definition indicator_names :: "frame \<Rightarrow> ustr set" where
  "indicator_names df = {i. \<exists>r \<in> set (rows df). ind r = Some i}"




section \<open>A sample sheet\<close>

definition sheet :: frame where
  "sheet =
     \<lparr>columns = [PStr (u ''Indicador''), PStr (u ''Jan_Hib''), PStr (u ''Jan_Zeb''),
                 PStr (u ''Fev_Hib''), PStr (u ''Fev_Zeb'')],
      rows = [\<lparr>ind = Some (u ''Ganho de Peso''),
                vals = [Some (10456 / 1000), Some (20111 / 1000), Some (23 / 2), Some 21]\<rparr>,
              \<lparr>ind = Some (u ''Consumo''),
                vals = [None, Some (5 / 2), Some (13 / 4), Some 4]\<rparr>]\<rparr>"

definition sheet_long :: "long list" where
  "sheet_long =
     [\<lparr>indicador = Some (u ''Ganho de Peso''), Mes_nome = u ''Janeiro'', Raca = u ''Hibrido'',
        Valor = Some (10456 / 1000)\<rparr>,
      \<lparr>indicador = Some (u ''Consumo''), Mes_nome = u ''Janeiro'', Raca = u ''Hibrido'',
        Valor = None\<rparr>,
      \<lparr>indicador = Some (u ''Ganho de Peso''), Mes_nome = u ''Janeiro'', Raca = u ''Zebu'',
        Valor = Some (20111 / 1000)\<rparr>,
      \<lparr>indicador = Some (u ''Consumo''), Mes_nome = u ''Janeiro'', Raca = u ''Zebu'',
        Valor = Some (5 / 2)\<rparr>,
      \<lparr>indicador = Some (u ''Ganho de Peso''), Mes_nome = u ''Fevereiro'', Raca = u ''Hibrido'',
        Valor = Some (23 / 2)\<rparr>,
      \<lparr>indicador = Some (u ''Consumo''), Mes_nome = u ''Fevereiro'', Raca = u ''Hibrido'',
        Valor = Some (13 / 4)\<rparr>,
      \<lparr>indicador = Some (u ''Ganho de Peso''), Mes_nome = u ''Fevereiro'', Raca = u ''Zebu'',
        Valor = Some 21\<rparr>,
      \<lparr>indicador = Some (u ''Consumo''), Mes_nome = u ''Fevereiro'', Raca = u ''Zebu'',
        Valor = Some 4\<rparr>]"

text \<open>The same sheet with a fifth value column, so that the month columns are odd in number.\<close>

definition sheet_odd :: frame where
  "sheet_odd =
     \<lparr>columns = columns sheet @ [PStr (u ''Mar_Hib'')],
      rows = map (\<lambda>r. r\<lparr>vals := vals r @ [Some 1]\<rparr>) (rows sheet)\<rparr>"

text \<open>A sheet with a single indicator.\<close>

definition sheet_single :: frame where
  "sheet_single =
     \<lparr>columns = [PStr (u ''Indicador''), PStr (u ''Jan_Hib''), PStr (u ''Jan_Zeb'')],
      rows = [\<lparr>ind = Some (u ''Ganho de Peso''),
                vals = [Some (10456 / 1000), Some (20111 / 1000)]\<rparr>]\<rparr>"

text \<open>
  The joined and sorted table of the run on the sample sheet when no widget has been
  touched (line 116), and what the run shows (line 119 on).
\<close>

definition sheet_merged :: merged where
  "sheet_merged =
     \<lparr>mcols = [valor_col (u ''Consumo''), valor_col (u ''Ganho de Peso'')],
      mrows = [((u ''Janeiro'', u ''Hibrido''), [None, Some (10456 / 1000)]),
               ((u ''Janeiro'', u ''Zebu''), [Some (5 / 2), Some (20111 / 1000)]),
               ((u ''Fevereiro'', u ''Hibrido''), [Some (13 / 4), Some (23 / 2)]),
               ((u ''Fevereiro'', u ''Zebu''), [Some 4, Some 21])]\<rparr>"


definition sheet_shown :: merged where
  "sheet_shown =
     \<lparr>mcols = [valor_col (u ''Consumo''), valor_col (u ''Ganho de Peso'')],
      mrows = [((u ''Janeiro'', u ''Hibrido''), [None, Some (1046 / 100)]),
               ((u ''Janeiro'', u ''Zebu''), [Some (5 / 2), Some (2011 / 100)]),
               ((u ''Fevereiro'', u ''Hibrido''), [Some (13 / 4), Some (23 / 2)]),
               ((u ''Fevereiro'', u ''Zebu''), [Some 4, Some 21])]\<rparr>"

text \<open>The same with the months picked in the order Fevereiro, Janeiro.\<close>

definition sheet_shown_fev_jan :: merged where
  "sheet_shown_fev_jan =
     \<lparr>mcols = [valor_col (u ''Consumo''), valor_col (u ''Ganho de Peso'')],
      mrows = [((u ''Fevereiro'', u ''Hibrido''), [Some (13 / 4), Some (23 / 2)]),
               ((u ''Fevereiro'', u ''Zebu''), [Some 4, Some 21]),
               ((u ''Janeiro'', u ''Hibrido''), [None, Some (1046 / 100)]),
               ((u ''Janeiro'', u ''Zebu''), [Some (5 / 2), Some (2011 / 100)])]\<rparr>"

definition untouched :: ui where
  "untouched = \<lparr>pick_indicadores = None, pick_meses = None, pick_racas = None\<rparr>"

definition fev_jan :: ui where
  "fev_jan = untouched\<lparr>pick_meses := Some [u ''Fevereiro'', u ''Janeiro'']\<rparr>"

section \<open>Properties of the month normalizer\<close>

lemmas latin1_eval =
  canonical_month_def canonicalize_spec_def spec_key_def month_key_def strip_def
  strip_accents_def latin1_def latin1_nfd_def latin1_decomp_def latin1_lower_cp_def
  latin1_isspace_def mapa_def u_def

lemma mapa_names: "map_of mapa k = Some m \<Longrightarrow> m \<in> set ordem_meses"
  by (drule map_of_SomeD) (auto simp: mapa_def ordem_meses_def)

lemma month_JANEIRO: "month_key latin1 (u ''JANEIRO'') = u ''jan''"
  by (simp add: latin1_eval)

lemma month_janeiro_acute: "month_key latin1 (u ''jan'' @ [233] @ u ''iro'') = u ''jan''"
  by (simp add: latin1_eval)

lemma month_Janeiro_space: "month_key latin1 (u ''Janeiro '') = u ''jan''"
  by (simp add: latin1_eval)

lemma month_Total: "month_key latin1 (u ''Total'') = u ''tot''"
  by (simp add: latin1_eval)

text \<open>
  C3, as the specification words it, is false: the key is not the first three characters
  of the accent-stripped, lower-cased input, because the program also trims whitespace
  from both ends before it takes the prefix. On \<open>" janeiro"\<close> the program answers
  \<open>Janeiro\<close>, where the normalizer of section 4.1 would return the input unchanged.
\<close>

theorem canonical_month_leading_space:
  "canonical_month latin1 (PStr (u '' janeiro'')) = u ''Janeiro'' \<and>
   canonicalize_spec latin1 (PStr (u '' janeiro'')) = u '' janeiro''"
  by (simp add: latin1_eval)

text \<open>
  C3, amended: the lookup key is the first three characters of the input after its
  accents are stripped, its surrounding whitespace is trimmed and it is lower-cased.
  Any two strings that share such a key, when the key is one of the twelve of the table,
  are mapped to the same name, the table's entry for the key, one of the twelve
  canonical month names.
\<close>

theorem canonical_month_same_prefix:
  assumes "month_key U a = month_key U b" and "month_key U a \<in> fst ` set mapa"
  shows "\<exists>m \<in> set ordem_meses. map_of mapa (month_key U a) = Some m \<and>
           canonical_month U (PStr a) = m \<and> canonical_month U (PStr b) = m"
proof -
  from assms(2) obtain m where m: "map_of mapa (month_key U a) = Some m"
    by (cases "map_of mapa (month_key U a)") (auto simp: map_of_eq_None_iff)
  then have "m \<in> set ordem_meses" by (rule mapa_names)
  moreover have "canonical_month U (PStr a) = m" using m by (simp add: canonical_month_def)
  moreover have "canonical_month U (PStr b) = m"
    using m assms(1) by (simp add: canonical_month_def)
  ultimately show ?thesis using m by blast
qed

theorem canonical_month_same_prefix_witness:
  "month_key latin1 (u ''JANEIRO'') = month_key latin1 (u ''jan'' @ [233] @ u ''iro'') \<and>
   month_key latin1 (u ''JANEIRO'') \<in> fst ` set mapa \<and>
   canonical_month latin1 (PStr (u ''JANEIRO'')) = u ''Janeiro'' \<and>
   canonical_month latin1 (PStr (u ''jan'' @ [233] @ u ''iro'')) = u ''Janeiro''"
proof -
  have k: "month_key latin1 (u ''JANEIRO'') = month_key latin1 (u ''jan'' @ [233] @ u ''iro'')"
    by (simp only: month_JANEIRO month_janeiro_acute)
  have d: "month_key latin1 (u ''JANEIRO'') \<in> fst ` set mapa"
    by (simp add: month_JANEIRO mapa_def)
  have j: "map_of mapa (month_key latin1 (u ''JANEIRO'')) = Some (u ''Janeiro'')"
    by (simp add: month_JANEIRO mapa_def)
  from canonical_month_same_prefix [OF k d] j k d show ?thesis by auto
qed

text \<open>
  C4, as the specification words it, is false for the same reason: the normalized prefix
  it speaks of (accents stripped, lower-cased, first three characters) leaves the
  surrounding whitespace in place. For \<open>"  fev"\<close> that prefix is \<open>"  f"\<close>, which is not a
  key of the table, and yet the program does not return the input: it trims the string at
  line 29, finds the key \<open>fev\<close> and answers \<open>Fevereiro\<close>.
\<close>

theorem canonical_month_untrimmed_prefix:
  "spec_key latin1 (u ''  fev'') = u ''  f'' \<and>
   map_of mapa (u ''  f'') = None \<and>
   canonicalize_spec latin1 (PStr (u ''  fev'')) = u ''  fev'' \<and>
   canonical_month latin1 (PStr (u ''  fev'')) = u ''Fevereiro''"
  by (simp add: latin1_eval)

text \<open>
  C4, amended: a string whose key (the first three characters after the accents are
  stripped, the surrounding whitespace is trimmed and the string is lower-cased) is not
  in the table is returned unchanged, and an input that is not a string is returned as
  its \<open>str()\<close> text with no lookup. The function is total: it has no failing branch.
\<close>

theorem canonical_month_fail_open:
  "(month_key U n \<notin> fst ` set mapa \<longrightarrow> canonical_month U (PStr n) = n) \<and>
   canonical_month U (PNonStr t) = t"
  by (auto simp: canonical_month_def map_of_eq_None_iff [symmetric] split: option.splits)

theorem canonical_month_fail_open_witness:
  "month_key latin1 (u ''Total'') \<notin> fst ` set mapa \<and>
   canonical_month latin1 (PStr (u ''Total'')) = u ''Total'' \<and>
   canonical_month latin1 (PNonStr (u ''2025'')) = u ''2025''"
proof -
  have "month_key latin1 (u ''Total'') \<notin> fst ` set mapa"
    unfolding month_Total by (simp add: mapa_def u_def)
  with canonical_month_fail_open [of latin1 "u ''Total''" "u ''2025''"] show ?thesis by simp
qed

section \<open>The sample sheet, evaluated\<close>

lemma canon_Jan_Hib: "canonical_month latin1 (PStr (u ''Jan_Hib'')) = u ''Janeiro''"
  by (simp add: latin1_eval)

lemma canon_Fev_Hib: "canonical_month latin1 (PStr (u ''Fev_Hib'')) = u ''Fevereiro''"
  by (simp add: latin1_eval)

lemma rename_sheet:
  "rename_columns latin1 sheet =
     ([], Inr [u ''Janeiro.Hibrido'', u ''Janeiro.Zebu'', u ''Fevereiro.Hibrido'', u ''Fevereiro.Zebu''])"
  by (simp add: rename_columns_def sheet_def mes_cols_of_def canon_Jan_Hib canon_Fev_Hib)
     (simp add: u_def)

lemma long_sheet:
  "df_final_of [u ''Janeiro.Hibrido'', u ''Janeiro.Zebu'', u ''Fevereiro.Hibrido'', u ''Fevereiro.Zebu'']
     (rows sheet) = sheet_long"
  by (simp add: df_final_of_def melt_def enumerate_eq_zip split_dot_def racas_def cell_def
        sheet_def sheet_long_def u_def upt_rec)

lemma df_final_sheet: "df_final latin1 sheet = sheet_long"
proof -
  have "pair_names latin1 (mes_cols_of (tl (columns sheet))) =
     [u ''Janeiro.Hibrido'', u ''Janeiro.Zebu'', u ''Fevereiro.Hibrido'', u ''Fevereiro.Zebu'']"
    by (simp add: sheet_def mes_cols_of_def canon_Jan_Hib canon_Fev_Hib) (simp add: u_def)
  then show ?thesis by (simp add: df_final_def long_sheet)
qed

lemma columns_sheet:
  "columns sheet = PStr (u ''Indicador'') # tl (columns sheet)" "even (length (tl (columns sheet)))"
  by (simp_all add: sheet_def)

lemma indicadores_sheet: "indicadores sheet_long = [u ''Consumo'', u ''Ganho de Peso'']"
  by (simp add: indicadores_def sheet_long_def u_def)

lemma meses_sheet: "meses_disponiveis sheet_long = [u ''Janeiro'', u ''Fevereiro'']"
  by (simp add: meses_disponiveis_def sheet_long_def ordem_meses_def u_def)

lemma floor_rat_numeral: "\<lfloor>numeral a / numeral b :: rat\<rfloor> = numeral a div numeral b"
  by (metis floor_divide_of_int_eq of_int_numeral)

lemmas round_eval = round2_def round_half_even_def Let_def floor_rat_numeral

lemmas render_eval =
  render_def indicadores_sheet indicadores_selec_def meses_escolhidos_def racas_escolhidas_def
  multiselect_def meses_sheet

lemma merge_sheet:
  "merge_loop sheet_long [u ''Janeiro'', u ''Fevereiro''] racas None
     [u ''Consumo'', u ''Ganho de Peso''] = Some sheet_merged"
  by (simp add: df_ind_def sheet_long_def racas_def outer_merge_def sheet_merged_def u_def)

lemma merge_sheet_fev_jan:
  "merge_loop sheet_long [u ''Fevereiro'', u ''Janeiro''] racas None
     [u ''Consumo'', u ''Ganho de Peso''] = Some sheet_merged"
  by (simp add: df_ind_def sheet_long_def racas_def outer_merge_def sheet_merged_def u_def)

lemma rows_sheet_merged: "mrows sheet_merged \<noteq> []"
  by (simp add: sheet_merged_def)

lemma sort_sheet: "sort_values [u ''Janeiro'', u ''Fevereiro''] sheet_merged = sheet_merged"
  by (simp add: sort_values_def cat_code_def sheet_merged_def u_def)

lemma show_sheet: "df_show sheet_merged = sheet_shown"
  by (simp add: df_show_def sheet_merged_def sheet_shown_def round_eval)

lemma render_sheet_untouched: "render sheet_long untouched = ([], Rendered sheet_shown)"
  by (simp add: render_eval untouched_def merge_sheet rows_sheet_merged sort_sheet show_sheet
        del: merge_loop.simps)

lemma show_sheet_fev_jan:
  "df_show (sort_values [u ''Fevereiro'', u ''Janeiro''] sheet_merged) = sheet_shown_fev_jan"
  by (simp add: sort_values_def cat_code_def df_show_def sheet_merged_def
        sheet_shown_fev_jan_def round_eval u_def)

lemma render_sheet_fev_jan: "render sheet_long fev_jan = ([], Rendered sheet_shown_fev_jan)"
  by (simp add: render_eval untouched_def fev_jan_def merge_sheet_fev_jan rows_sheet_merged
        show_sheet_fev_jan del: merge_loop.simps)

lemma html_sheet_shown:
  "html_table sheet_shown =
     [[u ''Janeiro'', u ''Hibrido'', u ''nan'', u ''10.46''],
      [u ''Janeiro'', u ''Zebu'', u ''2.50'', u ''20.11''],
      [u ''Fevereiro'', u ''Hibrido'', u ''3.25'', u ''11.50''],
      [u ''Fevereiro'', u ''Zebu'', u ''4.00'', u ''21.00'']]"
  by (simp add: html_table_def sheet_shown_def format_2f_def round_half_even_def Let_def
        floor_rat_numeral u_def)

section \<open>The run, stage by stage\<close>

lemma length_pair_names: "length (pair_names U xs) = 2 * ((length xs + 1) div 2)"
  by (induction U xs rule: pair_names.induct) simp_all

lemma length_pair_names_even: "even (length xs) \<Longrightarrow> length (pair_names U xs) = length xs"
  by (auto simp: length_pair_names elim: evenE)

lemma rename_columns_even:
  assumes "columns df = c # rest" and "even (length rest)"
  shows "rename_columns U df = ([], Inr (pair_names U rest))"
  using assms
  by (simp add: rename_columns_def mes_cols_of_def length_pair_names_even even_iff_mod_2_eq_zero)

lemma rename_columns_odd:
  assumes "columns df = c # rest" and "odd (length rest)"
  shows "rename_columns U df = ([OddMonthColumns], Inl ValueError)"
proof -
  from assms(2) have m: "length rest mod 2 \<noteq> 0" by (simp add: even_iff_mod_2_eq_zero)
  from assms(2) have "even (length (butlast rest))" by (cases rest rule: rev_cases) auto
  then have "length (pair_names U (butlast rest)) = length rest - 1"
    by (simp add: length_pair_names_even)
  moreover from assms(2) have "0 < length rest" by (cases rest) auto
  ultimately have "Suc (length (pair_names U (butlast rest))) \<noteq> Suc (length rest)" by simp
  with assms(1) m show ?thesis by (simp add: rename_columns_def mes_cols_of_def)
qed

lemma app_even:
  assumes "columns df = c # rest" and "even (length rest)"
  shows "app U df g = render (df_final U df) g"
  using assms rename_columns_even [OF assms, of U]
  by (simp add: app_def df_final_def mes_cols_of_def even_iff_mod_2_eq_zero split: prod.splits)

lemma app_odd:
  assumes "columns df = c # rest" and "odd (length rest)"
  shows "app U df g = ([OddMonthColumns], Crashed ValueError)"
  using rename_columns_odd [OF assms, of U] by (simp add: app_def)

lemma app_no_columns: "columns df = [] \<Longrightarrow> app U df g = ([], Crashed IndexError)"
  by (simp add: app_def rename_columns_def)

text \<open>A run that gets past the renaming of the columns is a run of \<open>render\<close>.\<close>

lemma app_not_crashed:
  assumes "app U df g = (w, out)" and "\<forall>e. out \<noteq> Crashed e"
  shows "\<exists>c rest. columns df = c # rest \<and> even (length rest) \<and>
           render (df_final U df) g = (w, out)"
proof (cases "columns df")
  case Nil
  with assms show ?thesis by (auto simp: app_no_columns)
next
  case (Cons c rest)
  show ?thesis
  proof (cases "even (length rest)")
    case True
    with Cons assms app_even [OF Cons True, of U g] show ?thesis by simp
  next
    case False
    with Cons assms app_odd [OF Cons, of U g] show ?thesis by auto
  qed
qed

section \<open>Indicators of the long table\<close>

lemma set_indicadores:
  "set (indicadores d) = {i. \<exists>r \<in> set d. indicador r = Some i}"
  by (auto simp: indicadores_def split: option.splits)

lemma distinct_indicadores: "distinct (indicadores d)"
  by (simp add: indicadores_def)

lemma df_final_of_row:
  assumes "r \<in> set (df_final_of nomes rws)"
  shows "\<exists>r' \<in> set rws. indicador r = ind r'"
  using assms
  by (auto simp: df_final_of_def melt_def split: prod.splits option.splits if_splits)

lemma indicadores_subset: "set (indicadores (df_final U df)) \<subseteq> indicator_names df"
  using df_final_of_row
  by (fastforce simp: set_indicadores indicator_names_def df_final_def)

lemma length_indicadores_le: "length (indicadores (df_final U df)) \<le> card (indicator_names df)"
proof -
  have "finite (indicator_names df)"
  proof -
    have "indicator_names df \<subseteq> (\<lambda>r. the (ind r)) ` set (rows df)"
      by (force simp: indicator_names_def)
    then show ?thesis by (rule finite_subset) simp
  qed
  then have "card (set (indicadores (df_final U df))) \<le> card (indicator_names df)"
    by (intro card_mono indicadores_subset)
  then show ?thesis by (simp add: distinct_card [OF distinct_indicadores])
qed

section \<open>Guards\<close>

lemma render_too_few:
  assumes "2 \<le> length (indicadores d)" and "length (indicadores_selec d g) < 2"
  shows "render d g = ([TooFewIndicators], Stopped)"
  using assms by (simp add: render_def)

lemma app_too_few:
  assumes "columns df = c # rest" and "even (length rest)"
      and "2 \<le> length (indicadores (df_final U df))"
      and "length (indicadores_selec (df_final U df) g) < 2"
  shows "app U df g = ([TooFewIndicators], Stopped)"
  using assms(3,4) by (simp add: app_even [OF assms(1,2)] render_too_few)

lemma render_index_error:
  "length (indicadores d) < 2 \<Longrightarrow> render d g = ([], Crashed IndexError)"
  by (simp add: render_def)

lemma render_notice_too_few:
  assumes "TooFewIndicators \<in> set (fst (render d g))"
  shows "2 \<le> length (indicadores d) \<and> length (indicadores_selec d g) < 2"
  using assms by (auto simp: render_def split: if_splits option.splits)

lemma merge_loop_no_rows:
  assumes "\<forall>i \<in> set sel. df_ind d ms rs i = []"
      and "case acc of None \<Rightarrow> True | Some m \<Rightarrow> mrows m = []"
  shows "case merge_loop d ms rs acc sel of None \<Rightarrow> True | Some m \<Rightarrow> mrows m = []"
  using assms
proof (induction sel arbitrary: acc)
  case Nil
  then show ?case by simp
next
  case (Cons i sel)
  let ?acc = "Some (case acc of
                None \<Rightarrow> \<lparr>mcols = [valor_col i], mrows = map (\<lambda>(k, v). (k, [v])) (df_ind d ms rs i)\<rparr>
              | Some m \<Rightarrow> outer_merge m (valor_col i) (df_ind d ms rs i))"
  from Cons.prems have "case ?acc of None \<Rightarrow> True | Some m \<Rightarrow> mrows m = []"
    by (auto simp: outer_merge_def split: option.splits)
  moreover from Cons.prems have "\<forall>i \<in> set sel. df_ind d ms rs i = []" by simp
  ultimately have "case merge_loop d ms rs ?acc sel of None \<Rightarrow> True | Some m \<Rightarrow> mrows m = []"
    by (rule Cons.IH [rotated])
  then show ?case by simp
qed

section \<open>Column pairing (C5)\<close>

text \<open>
  For an even number of month columns the renaming is positional and keeps the order of
  the months: every pair gives the Hibrido name and then the Zebu name of the month that
  its first header names.
\<close>

lemma pair_names_four:
  "pair_names U [a_hib, a_zeb, b_hib, b_zeb] =
     [canonical_month U a_hib @ u ''.Hibrido'', canonical_month U a_hib @ u ''.Zebu'',
      canonical_month U b_hib @ u ''.Hibrido'', canonical_month U b_hib @ u ''.Zebu'']"
  by simp

text \<open>
  C5 says that with an odd number of month columns the last one is dropped with a
  warning and the run goes on. The program shows the warning and shortens its list of
  headers, but not the frame: the assignment of the new names to the columns fails, one
  name short. On the sample sheet with a fifth value column the run ends with the
  warning and an uncaught \<open>ValueError\<close>.
\<close>

theorem odd_columns_crash:
  "app latin1 sheet_odd untouched = ([OddMonthColumns], Crashed ValueError)"
proof (rule app_odd)
  show "columns sheet_odd = PStr (u ''Indicador'') # tl (columns sheet_odd)"
    by (simp add: sheet_odd_def sheet_def)
  show "odd (length (tl (columns sheet_odd)))"
    by (simp add: sheet_odd_def sheet_def)
qed

section \<open>The two guards (C7, C8, C10)\<close>

text \<open>
  C7: when the columns can be renamed and the sheet has at least two indicators (so that
  the widgets can be built), every selection of fewer than two indicators ends the run at
  the guard of lines 95--97: the warning is shown, the run stops, and no table is built.
\<close>

theorem too_few_indicators_stops:
  assumes "columns df = c # rest" and "even (length rest)"
      and "2 \<le> length (indicadores (df_final U df))"
      and "pick_indicadores g = Some sel" and "length sel < 2"
  shows "app U df g = ([TooFewIndicators], Stopped)"
proof -
  from assms(4,5) have "length (indicadores_selec (df_final U df) g) < 2"
    by (simp add: indicadores_selec_def multiselect_def)
  with assms(1,2,3) show ?thesis by (rule app_too_few)
qed

theorem too_few_indicators_stops_witness:
  "columns sheet = PStr (u ''Indicador'') # tl (columns sheet) \<and>
   even (length (tl (columns sheet))) \<and>
   2 \<le> length (indicadores (df_final latin1 sheet)) \<and>
   app latin1 sheet (untouched\<lparr>pick_indicadores := Some [u ''Consumo'']\<rparr>) =
     ([TooFewIndicators], Stopped)"
proof -
  have i: "2 \<le> length (indicadores (df_final latin1 sheet))"
    by (simp add: df_final_sheet indicadores_sheet)
  have p: "pick_indicadores (untouched\<lparr>pick_indicadores := Some [u ''Consumo'']\<rparr>) =
      Some [u ''Consumo'']" by simp
  have l: "length [u ''Consumo''] < 2" by simp
  from too_few_indicators_stops [OF columns_sheet i p l] columns_sheet i
  show ?thesis by simp
qed

text \<open>
  C8: with at least two indicators selected, when the filter of lines 102--106 matches no
  record for any of them, the run ends at the guard of lines 110--112 with its own
  warning, which is not the warning of the first guard.
\<close>

theorem empty_result_stops:
  assumes "columns df = c # rest" and "even (length rest)"
      and "2 \<le> length (indicadores (df_final U df))"
      and "2 \<le> length (indicadores_selec (df_final U df) g)"
      and "\<forall>i \<in> set (indicadores_selec (df_final U df) g).
             df_ind (df_final U df) (meses_escolhidos (df_final U df) g) (racas_escolhidas g) i = []"
  shows "app U df g = ([NoMatchingData], Stopped) \<and> NoMatchingData \<noteq> TooFewIndicators"
proof -
  have "case merge_loop (df_final U df) (meses_escolhidos (df_final U df) g)
               (racas_escolhidas g) None (indicadores_selec (df_final U df) g) of
          None \<Rightarrow> True | Some m \<Rightarrow> mrows m = []"
    by (rule merge_loop_no_rows [OF assms(5)]) simp
  with assms(3,4) have "render (df_final U df) g = ([NoMatchingData], Stopped)"
    by (auto simp: render_def split: option.splits)
  then show ?thesis by (simp add: app_even [OF assms(1,2)])
qed

theorem empty_result_stops_witness:
  "columns sheet = PStr (u ''Indicador'') # tl (columns sheet) \<and>
   even (length (tl (columns sheet))) \<and>
   2 \<le> length (indicadores (df_final latin1 sheet)) \<and>
   2 \<le> length (indicadores_selec (df_final latin1 sheet) (untouched\<lparr>pick_meses := Some []\<rparr>)) \<and>
   app latin1 sheet (untouched\<lparr>pick_meses := Some []\<rparr>) = ([NoMatchingData], Stopped)"
proof -
  let ?g = "untouched\<lparr>pick_meses := Some []\<rparr>"
  have i: "2 \<le> length (indicadores (df_final latin1 sheet))"
    by (simp add: df_final_sheet indicadores_sheet)
  have s: "2 \<le> length (indicadores_selec (df_final latin1 sheet) ?g)"
    by (simp add: indicadores_selec_def multiselect_def untouched_def)
  have n: "\<forall>i \<in> set (indicadores_selec (df_final latin1 sheet) ?g).
      df_ind (df_final latin1 sheet) (meses_escolhidos (df_final latin1 sheet) ?g)
        (racas_escolhidas ?g) i = []"
    by (simp add: df_ind_def meses_escolhidos_def multiselect_def)
  from empty_result_stops [OF columns_sheet i s n] columns_sheet i s
  show ?thesis by simp
qed

text \<open>
  C10: the guard of lines 95--97 can only be reached when the sheet names at least two
  distinct indicators. For a sheet that loads (its columns can be renamed, it has a month
  column and a row) and names fewer than two, the default selection of line 89 reads
  positions 0 and 1 of a shorter list: the run dies with an uncaught \<open>IndexError\<close>, and
  no warning has been shown.
\<close>

theorem default_selection_needs_two_indicators:
  "(TooFewIndicators \<in> set (fst (app U df g)) \<longrightarrow> 2 \<le> card (indicator_names df)) \<and>
   (columns df = c # rest \<and> rest \<noteq> [] \<and> even (length rest) \<and> rows df \<noteq> [] \<and>
      card (indicator_names df) < 2 \<longrightarrow>
    app U df g = ([], Crashed IndexError))"
proof (intro conjI impI)
  assume t: "TooFewIndicators \<in> set (fst (app U df g))"
  obtain w out where a: "app U df g = (w, out)" by (cases "app U df g")
  have "\<forall>e. out \<noteq> Crashed e"
  proof (intro allI notI)
    fix e assume "out = Crashed e"
    with a t show False
      by (cases "columns df"; cases "even (length (tl (columns df)))")
         (auto simp: app_no_columns app_odd app_even render_def split: if_splits option.splits)
  qed
  from app_not_crashed [OF a this] a t
  have "TooFewIndicators \<in> set (fst (render (df_final U df) g))" by auto
  then have "2 \<le> length (indicadores (df_final U df))"
    by (simp add: render_notice_too_few)
  with length_indicadores_le [of U df] show "2 \<le> card (indicator_names df)" by simp
next
  assume h: "columns df = c # rest \<and> rest \<noteq> [] \<and> even (length rest) \<and> rows df \<noteq> [] \<and>
      card (indicator_names df) < 2"
  with length_indicadores_le [of U df] have "length (indicadores (df_final U df)) < 2" by simp
  with h show "app U df g = ([], Crashed IndexError)"
    by (simp add: app_even render_index_error)
qed

theorem default_selection_needs_two_indicators_witness:
  "TooFewIndicators \<in> set (fst (app latin1 sheet (untouched\<lparr>pick_indicadores := Some []\<rparr>))) \<and>
   2 \<le> card (indicator_names sheet) \<and>
   (columns sheet_single = PStr (u ''Indicador'') # tl (columns sheet_single) \<and>
    tl (columns sheet_single) \<noteq> [] \<and> even (length (tl (columns sheet_single))) \<and>
    rows sheet_single \<noteq> [] \<and> card (indicator_names sheet_single) < 2) \<and>
   app latin1 sheet_single untouched = ([], Crashed IndexError)"
proof -
  let ?g = "untouched\<lparr>pick_indicadores := Some []\<rparr>"
  have i: "2 \<le> length (indicadores (df_final latin1 sheet))"
    by (simp add: df_final_sheet indicadores_sheet)
  have "app latin1 sheet ?g = ([TooFewIndicators], Stopped)"
    by (rule app_too_few [OF columns_sheet i])
       (simp add: indicadores_selec_def multiselect_def)
  then have t: "TooFewIndicators \<in> set (fst (app latin1 sheet ?g))" by simp
  have "indicator_names sheet_single = {u ''Ganho de Peso''}"
    by (auto simp: indicator_names_def sheet_single_def)
  then have h: "columns sheet_single = PStr (u ''Indicador'') # tl (columns sheet_single) \<and>
    tl (columns sheet_single) \<noteq> [] \<and> even (length (tl (columns sheet_single))) \<and>
    rows sheet_single \<noteq> [] \<and> card (indicator_names sheet_single) < 2"
    by (simp add: sheet_single_def)
  from default_selection_needs_two_indicators
         [of latin1 sheet ?g "PStr (u ''Indicador'')" "tl (columns sheet_single)"] t
  have "2 \<le> card (indicator_names sheet)" by blast
  moreover from default_selection_needs_two_indicators
         [of latin1 sheet_single untouched "PStr (u ''Indicador'')" "tl (columns sheet_single)"] h
  have "app latin1 sheet_single untouched = ([], Crashed IndexError)" by blast
  ultimately show ?thesis using t h by blast
qed

section \<open>The outer join\<close>

lemma filter_key_empty: "filter (\<lambda>(k', v). k' = k) R = [] \<longleftrightarrow> k \<notin> fst ` set R"
  by (force simp: filter_empty_conv)

lemma set_filter_key: "set (filter (\<lambda>(k', v). k' = k) R) = {(k, v) | v. (k, v) \<in> set R}"
  by auto

lemma left_rows:
  "set (let ms = filter (\<lambda>(k', v). k' = k) R
        in if ms = [] then [(k, vs @ [None])] else map (\<lambda>(k', v). (k, vs @ [v])) ms) =
   (if k \<notin> fst ` set R then {(k, vs @ [None :: rat option])}
    else {(k, vs @ [v]) | v. (k, v) \<in> set R})"
  unfolding Let_def filter_key_empty
  by (auto simp: set_filter_key image_iff)

lemma set_outer_merge:
  "set (mrows (outer_merge m nm R)) =
     (\<Union>(k, vs) \<in> set (mrows m).
        if k \<notin> fst ` set R then {(k, vs @ [None])} else {(k, vs @ [v]) | v. (k, v) \<in> set R}) \<union>
     {(k, replicate (length (mcols m)) None @ [v]) | k v.
        (k, v) \<in> set R \<and> k \<notin> fst ` set (mrows m)}"
proof -
  have "set (mrows (outer_merge m nm R)) =
     (\<Union>x \<in> set (mrows m). set (case x of (k, vs) \<Rightarrow>
        (let ms = filter (\<lambda>(k', v). k' = k) R
         in if ms = [] then [(k, vs @ [None])] else map (\<lambda>(k', v). (k, vs @ [v])) ms))) \<union>
     (\<lambda>(k', v). (k', replicate (length (mcols m)) None @ [v])) `
        {x \<in> set R. case x of (k', v) \<Rightarrow> k' \<notin> fst ` set (mrows m)}"
    by (simp add: outer_merge_def)
  also have "(\<Union>x \<in> set (mrows m). set (case x of (k, vs) \<Rightarrow>
        (let ms = filter (\<lambda>(k', v). k' = k) R
         in if ms = [] then [(k, vs @ [None])] else map (\<lambda>(k', v). (k, vs @ [v])) ms))) =
      (\<Union>(k, vs) \<in> set (mrows m).
        if k \<notin> fst ` set R then {(k, vs @ [None])} else {(k, vs @ [v]) | v. (k, v) \<in> set R})"
    by (intro SUP_cong refl) (simp only: left_rows split: prod.splits, simp)
  also have "(\<lambda>(k', v). (k', replicate (length (mcols m)) None @ [v])) `
        {x \<in> set R. case x of (k', v) \<Rightarrow> k' \<notin> fst ` set (mrows m)} =
     {(k, replicate (length (mcols m)) None @ [v]) | k v.
        (k, v) \<in> set R \<and> k \<notin> fst ` set (mrows m)}"
    by (rule set_eqI) (simp add: image_iff split_beta, blast)
  finally show ?thesis .
qed




lemma outer_merge_cases:
  assumes "(k, ws) \<in> set (mrows (outer_merge m nm R))"
  obtains vs where "(k, vs) \<in> set (mrows m)" "k \<notin> fst ` set R" "ws = vs @ [None]"
    | vs v where "(k, vs) \<in> set (mrows m)" "(k, v) \<in> set R" "ws = vs @ [v]"
    | v where "(k, v) \<in> set R" "k \<notin> fst ` set (mrows m)"
        "ws = replicate (length (mcols m)) None @ [v]"
proof -
  from assms [unfolded set_outer_merge] show thesis
  proof (elim UnE UN_E)
    fix x
    assume x: "x \<in> set (mrows m)"
      and in_x: "(k, ws) \<in> (case x of (k, vs) \<Rightarrow>
        if k \<notin> fst ` set R then {(k, vs @ [None])} else {(k, vs @ [v]) | v. (k, v) \<in> set R})"
    obtain k' vs where kv: "x = (k', vs)" by (cases x)
    show thesis
    proof (cases "k' \<in> fst ` set R")
      case False
      with in_x kv have "k = k'" "ws = vs @ [None]" by simp_all
      with x kv False show thesis by (intro that(1) [of vs]) simp_all
    next
      case True
      with in_x kv obtain v where "k = k'" "ws = vs @ [v]" "(k', v) \<in> set R" by auto
      with x kv show thesis by (intro that(2) [of vs v]) simp_all
    qed
  next
    assume "(k, ws) \<in> {(k, replicate (length (mcols m)) None @ [v]) | k v.
        (k, v) \<in> set R \<and> k \<notin> fst ` set (mrows m)}"
    then obtain v where "(k, v) \<in> set R" "k \<notin> fst ` set (mrows m)"
        "ws = replicate (length (mcols m)) None @ [v]" by blast
    then show thesis by (rule that(3))
  qed
qed

section \<open>What the merge loop maintains\<close>











section \<open>A run that renders the table\<close>

lemma render_Rendered:
  assumes "render d g = (w, Rendered t)"
  obtains m where "w = []" "2 \<le> length (indicadores d)" "2 \<le> length (indicadores_selec d g)"
    "merge_loop d (meses_escolhidos d g) (racas_escolhidas g) None (indicadores_selec d g) = Some m"
    "mrows m \<noteq> []" "t = df_show (sort_values (meses_escolhidos d g) m)"
proof -
  from assms have a: "\<not> length (indicadores d) < 2" "\<not> length (indicadores_selec d g) < 2"
    by (auto simp: render_def split: if_splits)
  with assms obtain m where
    m: "merge_loop d (meses_escolhidos d g) (racas_escolhidas g) None (indicadores_selec d g) = Some m"
    by (cases "merge_loop d (meses_escolhidos d g) (racas_escolhidas g) None (indicadores_selec d g)")
       (auto simp: render_def)
  with assms a have "mrows m \<noteq> []" "w = []" "t = df_show (sort_values (meses_escolhidos d g) m)"
    by (auto simp: render_def split: if_splits)
  with a m show thesis by (intro that [of m]) simp_all
qed

lemma app_Rendered:
  assumes "app U df g = (w, Rendered t)"
  obtains c rest m where "columns df = c # rest" "even (length rest)" "w = []"
    "2 \<le> length (indicadores (df_final U df))" "2 \<le> length (selected U df g)"
    "merge_loop (df_final U df) (months U df g) (racas_escolhidas g) None (selected U df g) = Some m"
    "mrows m \<noteq> []" "t = df_show (sort_values (months U df g) m)"
proof -
  have "\<forall>e. Rendered t \<noteq> Crashed e" by simp
  from app_not_crashed [OF assms this] obtain c rest where
    c: "columns df = c # rest" "even (length rest)"
    and r: "render (df_final U df) g = (w, Rendered t)" by blast
  from r c show thesis by (elim render_Rendered) (rule that)
qed

lemma set_sort_values: "set (mrows (sort_values cats m)) = set (mrows m)"
  by (simp add: sort_values_def)

lemma in_df_show:
  "(k, ws) \<in> set (mrows (df_show m)) \<longleftrightarrow>
     (\<exists>vs. (k, vs) \<in> set (mrows m) \<and> ws = map (map_option round2) vs)"
  by (force simp: df_show_def)

lemma in_shown:
  "(k, ws) \<in> set (mrows (df_show (sort_values cats m))) \<longleftrightarrow>
     (\<exists>vs. (k, vs) \<in> set (mrows m) \<and> ws = map (map_option round2) vs)"
  by (simp add: in_df_show set_sort_values)

section \<open>Outer-join completeness (C2)\<close>


section \<open>Ordering of the rows (C6)\<close>

lemma df_ind_keys: "(k, v) \<in> set (df_ind d ms rs i) \<Longrightarrow> fst k \<in> set ms \<and> snd k \<in> set rs"
  by (auto simp: df_ind_def)

lemma outer_merge_keys:
  "fst ` set (mrows (outer_merge m nm R)) \<subseteq> fst ` set (mrows m) \<union> fst ` set R"
proof
  fix k assume "k \<in> fst ` set (mrows (outer_merge m nm R))"
  then obtain ws where "(k, ws) \<in> set (mrows (outer_merge m nm R))" by force
  then show "k \<in> fst ` set (mrows m) \<union> fst ` set R"
    by (cases rule: outer_merge_cases) force+
qed

lemma merge_loop_keys:
  assumes "\<forall>i \<in> set sel. fst ` set (df_ind d ms rs i) \<subseteq> K"
      and "case acc of None \<Rightarrow> True | Some m \<Rightarrow> fst ` set (mrows m) \<subseteq> K"
  shows "case merge_loop d ms rs acc sel of None \<Rightarrow> True | Some m \<Rightarrow> fst ` set (mrows m) \<subseteq> K"
  using assms
proof (induction sel arbitrary: acc)
  case Nil
  then show ?case by simp
next
  case (Cons i sel)
  let ?acc = "Some (case acc of
                None \<Rightarrow> \<lparr>mcols = [valor_col i], mrows = map (\<lambda>(k, v). (k, [v])) (df_ind d ms rs i)\<rparr>
              | Some m \<Rightarrow> outer_merge m (valor_col i) (df_ind d ms rs i))"
  from Cons.prems have i: "fst ` set (df_ind d ms rs i) \<subseteq> K" by simp
  have "case ?acc of None \<Rightarrow> True | Some m \<Rightarrow> fst ` set (mrows m) \<subseteq> K"
  proof (cases acc)
    case None
    have "fst ` set (map (\<lambda>(k, v). (k, [v])) (df_ind d ms rs i)) = fst ` set (df_ind d ms rs i)"
      by force
    with None i show ?thesis by simp
  next
    case (Some m)
    with Cons.prems(2) have "fst ` set (mrows m) \<subseteq> K" by simp
    with i outer_merge_keys [of m "valor_col i" "df_ind d ms rs i"]
    have "fst ` set (mrows (outer_merge m (valor_col i) (df_ind d ms rs i))) \<subseteq> K" by blast
    with Some show ?thesis by simp
  qed
  moreover from Cons.prems have "\<forall>i \<in> set sel. fst ` set (df_ind d ms rs i) \<subseteq> K" by simp
  ultimately have "case merge_loop d ms rs ?acc sel of
      None \<Rightarrow> True | Some m \<Rightarrow> fst ` set (mrows m) \<subseteq> K"
    by (rule Cons.IH [rotated])
  then show ?case by simp
qed

lemma merge_loop_months:
  assumes "merge_loop d ms rs None sel = Some m" and "(k, vs) \<in> set (mrows m)"
  shows "fst k \<in> set ms" and "snd k \<in> set rs"
proof -
  have "\<forall>i \<in> set sel. fst ` set (df_ind d ms rs i) \<subseteq> {k. fst k \<in> set ms \<and> snd k \<in> set rs}"
    using df_ind_keys by fastforce
  from merge_loop_keys [OF this, of None] assms(1)
  have "fst ` set (mrows m) \<subseteq> {k. fst k \<in> set ms \<and> snd k \<in> set rs}" by simp
  with assms(2) show "fst k \<in> set ms" and "snd k \<in> set rs" by force+
qed

lemma cat_code_pos:
  "x \<in> set cats \<Longrightarrow> cat_code cats x < length cats \<and> cats ! cat_code cats x = x"
  unfolding cat_code_def by (induction cats) auto

lemma sorted_shown:
  "sorted (map (\<lambda>(k, vs). (cat_code cats (fst k), snd k)) (mrows (df_show (sort_values cats m))))"
proof -
  let ?f = "\<lambda>(k, vs :: rat option list). (cat_code cats (fst k), snd k)"
  have "map ?f (mrows (df_show (sort_values cats m))) = map ?f (sort_key ?f (mrows m))"
    by (simp add: df_show_def sort_values_def split_beta)
  then show ?thesis by (simp only: sorted_sort_key)
qed

text \<open>
  C6: the rows of a rendered table are ordered first by the position of their month in
  the list of months that the user chose (each row's month is in that list, at the
  position \<open>cat_code\<close> gives), and rows of one month by their breed label in the order of
  strings.
\<close>

theorem pivot_rows_sorted:
  assumes "app U df g = (w, Rendered t)"
  shows "sorted_wrt (\<lambda>(k, vs) (k', vs').
            cat_code (months U df g) (fst k) < cat_code (months U df g) (fst k') \<or>
            (cat_code (months U df g) (fst k) = cat_code (months U df g) (fst k') \<and>
             snd k \<le> snd k')) (mrows t) \<and>
         (\<forall>(k, vs) \<in> set (mrows t).
            cat_code (months U df g) (fst k) < length (months U df g) \<and>
            months U df g ! cat_code (months U df g) (fst k) = fst k)"
proof -
  from assms obtain m where
    m: "merge_loop (df_final U df) (months U df g) (racas_escolhidas g) None (selected U df g) = Some m"
    and t: "t = df_show (sort_values (months U df g) m)"
    by (rule app_Rendered)
  let ?f = "\<lambda>(k, vs :: rat option list). (cat_code (months U df g) (fst k), snd k)"
  have "sorted (map ?f (mrows t))" unfolding t by (rule sorted_shown)
  then have "sorted_wrt (\<lambda>x y. ?f x \<le> ?f y) (mrows t)" by (simp only: sorted_map)
  then have "sorted_wrt (\<lambda>(k, vs) (k', vs').
            cat_code (months U df g) (fst k) < cat_code (months U df g) (fst k') \<or>
            (cat_code (months U df g) (fst k) = cat_code (months U df g) (fst k') \<and>
             snd k \<le> snd k')) (mrows t)"
    by (rule sorted_wrt_mono_rel [rotated]) (auto simp: less_eq_prod_def)
  moreover have "cat_code (months U df g) (fst k) < length (months U df g) \<and>
      months U df g ! cat_code (months U df g) (fst k) = fst k"
    if "(k, ws) \<in> set (mrows t)" for k ws
  proof -
    from that obtain vs where "(k, vs) \<in> set (mrows m)" unfolding t in_shown by blast
    from merge_loop_months(1) [OF m this] show ?thesis by (rule cat_code_pos)
  qed
  ultimately show ?thesis by blast
qed

section \<open>Rounding and display (C9)\<close>

lemma round_half_even_of_int: "round_half_even (of_int n) = n"
  by (simp add: round_half_even_def)

lemma round_half_even_close: "\<bar>of_int (round_half_even y) - y\<bar> \<le> 1 / 2"
proof -
  define f where "f = \<lfloor>y\<rfloor>"
  define d where "d = y - of_int f"
  have d: "0 \<le> d" "d < 1" unfolding d_def f_def by linarith+
  have y: "y = of_int f + d" by (simp add: d_def)
  have r: "round_half_even y =
      (if d < 1 / 2 then f else if 1 / 2 < d then f + 1 else if even f then f else f + 1)"
    by (simp add: round_half_even_def Let_def f_def d_def)
  show ?thesis
  proof (cases "d < 1 / 2")
    case True
    with d r y show ?thesis by simp
  next
    case False
    note nlt = this
    show ?thesis
    proof (cases "1 / 2 < d")
      case True
      with nlt d r y show ?thesis by (simp add: abs_if)
    next
      case False
      with nlt have "d = 1 / 2" by simp
      with r y show ?thesis by (simp add: abs_if)
    qed
  qed
qed

lemma round2_hundredths: "round2 q = of_int (round_half_even (q * 100)) / 100"
  by (simp add: round2_def)

lemma round2_close: "\<bar>round2 q - q\<bar> \<le> 1 / 200"
proof -
  have "\<bar>of_int (round_half_even (q * 100)) - q * 100\<bar> \<le> 1 / 2"
    by (rule round_half_even_close)
  then show ?thesis by (simp add: round2_def abs_if field_simps split: if_splits)
qed

lemma format_2f_round2: "format_2f (Some (round2 q)) = format_2f (Some q)"
  by (simp add: format_2f_def round2_def round_half_even_of_int)

lemma format_2f_shape:
  "\<exists>s d1 d2. format_2f (Some q) = s @ [46, d1, d2] \<and> 48 \<le> d1 \<and> d1 \<le> 57 \<and> 48 \<le> d2 \<and> d2 \<le> 57"
proof -
  let ?c = "round_half_even (q * 100)"
  let ?a = "nat \<bar>?c\<bar>"
  have "format_2f (Some q) =
      ((if ?c < 0 then u ''-'' else []) @ digits (?a div 100)) @
        [46, 48 + (?a div 10) mod 10, 48 + ?a mod 10]"
    by (simp add: format_2f_def Let_def u_def del: digits.simps)
  moreover have "(?a div 10) mod 10 \<le> 9" "?a mod 10 \<le> 9" by simp_all
  ultimately show ?thesis by (intro exI conjI) (assumption, simp_all)
qed

text \<open>
  C9, amended: of every cell of a value column of the pivoted table, the displayed frame
  holds the value rounded to the nearest hundredth when there is a value, and keeps a
  missing value missing. The text in the table is the \<open>"{:.2f}"\<close> format of the cell: two
  decimal digits for a value, and \<open>nan\<close> (not a blank) for a missing value.
\<close>

theorem display_rounding:
  assumes "r < length (mrows m)" and "i < length (snd (mrows m ! r))"
  shows "case snd (mrows m ! r) ! i of
           None \<Rightarrow> snd (mrows (df_show m) ! r) ! i = None \<and>
                   html_table (df_show m) ! r ! (i + 2) = u ''nan''
         | Some q \<Rightarrow> snd (mrows (df_show m) ! r) ! i = Some (round2 q) \<and>
                   (\<exists>n :: int. round2 q = of_int n / 100) \<and> \<bar>round2 q - q\<bar> \<le> 1 / 200 \<and>
                   html_table (df_show m) ! r ! (i + 2) = format_2f (Some (round2 q)) \<and>
                   (\<exists>s d1 d2. format_2f (Some (round2 q)) = s @ [46, d1, d2] \<and>
                      48 \<le> d1 \<and> d1 \<le> 57 \<and> 48 \<le> d2 \<and> d2 \<le> 57)"
proof -
  obtain k vs where kv: "mrows m ! r = (k, vs)" by (cases "mrows m ! r")
  with assms have shown: "mrows (df_show m) ! r = (k, map (map_option round2) vs)"
    by (simp add: df_show_def)
  with assms(1) have "html_table (df_show m) ! r =
      fst k # snd k # map format_2f (map (map_option round2) vs)"
    by (simp add: html_table_def df_show_def)
  with assms(2) kv have shown_text: "html_table (df_show m) ! r ! (i + 2) =
      format_2f (map_option round2 (vs ! i))" by simp
  from assms(2) kv shown have shown_cell: "snd (mrows (df_show m) ! r) ! i = map_option round2 (vs ! i)"
    by simp
  show ?thesis
  proof (cases "vs ! i")
    case None
    with kv shown_cell shown_text show ?thesis by (simp add: format_2f_def)
  next
    case (Some q)
    have "\<exists>n :: int. round2 q = of_int n / 100" unfolding round2_hundredths by blast
    with Some kv shown_cell shown_text round2_close [of q] format_2f_shape [of "round2 q"]
    show ?thesis by simp
  qed
qed

section \<open>The properties on the sample sheet\<close>

lemma app_sheet_untouched: "app latin1 sheet untouched = ([], Rendered sheet_shown)"
  by (simp add: app_even [OF columns_sheet] df_final_sheet render_sheet_untouched)

lemma app_sheet_fev_jan: "app latin1 sheet fev_jan = ([], Rendered sheet_shown_fev_jan)"
  by (simp add: app_even [OF columns_sheet] df_final_sheet render_sheet_fev_jan)







theorem pivot_rows_sorted_witness:
  "app latin1 sheet fev_jan = ([], Rendered sheet_shown_fev_jan) \<and>
   months latin1 sheet fev_jan = [u ''Fevereiro'', u ''Janeiro''] \<and>
   map fst (mrows sheet_shown_fev_jan) =
     [(u ''Fevereiro'', u ''Hibrido''), (u ''Fevereiro'', u ''Zebu''),
      (u ''Janeiro'', u ''Hibrido''), (u ''Janeiro'', u ''Zebu'')] \<and>
   sorted_wrt (\<lambda>(k, vs) (k', vs').
      cat_code [u ''Fevereiro'', u ''Janeiro''] (fst k)
        < cat_code [u ''Fevereiro'', u ''Janeiro''] (fst k') \<or>
      (cat_code [u ''Fevereiro'', u ''Janeiro''] (fst k)
         = cat_code [u ''Fevereiro'', u ''Janeiro''] (fst k') \<and>
       snd k \<le> snd k')) (mrows sheet_shown_fev_jan)"
proof -
  have m: "months latin1 sheet fev_jan = [u ''Fevereiro'', u ''Janeiro'']"
    by (simp add: meses_escolhidos_def multiselect_def fev_jan_def)
  have k: "map fst (mrows sheet_shown_fev_jan) =
     [(u ''Fevereiro'', u ''Hibrido''), (u ''Fevereiro'', u ''Zebu''),
      (u ''Janeiro'', u ''Hibrido''), (u ''Janeiro'', u ''Zebu'')]"
    by (simp add: sheet_shown_fev_jan_def)
  from pivot_rows_sorted [OF app_sheet_fev_jan] m k app_sheet_fev_jan
  show ?thesis by simp
qed

text \<open>
  C9 as the specification words it is false in one point: a missing value is not shown
  as a blank. In the run on the sample sheet with no widget touched, indicator Consumo
  has no value for (Janeiro, Hibrido); the cell stays missing in the displayed frame, and
  its text in the table is \<open>nan\<close>.
\<close>

theorem missing_value_shown_as_nan:
  "app latin1 sheet untouched = ([], Rendered sheet_shown) \<and>
   snd (mrows sheet_shown ! 0) ! 0 = None \<and>
   html_table sheet_shown ! 0 ! 2 = u ''nan'' \<and>
   html_table sheet_shown ! 0 ! 2 \<noteq> []"
  by (simp add: app_sheet_untouched html_sheet_shown) (simp add: sheet_shown_def u_def)

theorem display_rounding_witness:
  "0 < length (mrows sheet_merged) \<and> 1 < length (snd (mrows sheet_merged ! 0)) \<and>
   1 < length (mrows sheet_merged) \<and> 1 < length (snd (mrows sheet_merged ! 1)) \<and>
   snd (mrows sheet_merged ! 0) ! 1 = Some (10456 / 1000) \<and>
   snd (mrows sheet_merged ! 1) ! 1 = Some (20111 / 1000) \<and>
   df_show sheet_merged = sheet_shown \<and>
   snd (mrows sheet_shown ! 0) ! 1 = Some (1046 / 100) \<and>
   snd (mrows sheet_shown ! 1) ! 1 = Some (2011 / 100) \<and>
   html_table sheet_shown ! 0 ! 3 = u ''10.46'' \<and>
   html_table sheet_shown ! 1 ! 3 = u ''20.11''"
proof -
  have l: "0 < length (mrows sheet_merged)" "1 < length (snd (mrows sheet_merged ! 0))"
    "1 < length (mrows sheet_merged)" "1 < length (snd (mrows sheet_merged ! 1))"
    by (simp_all add: sheet_merged_def)
  have v: "snd (mrows sheet_merged ! 0) ! 1 = Some (10456 / 1000)"
    "snd (mrows sheet_merged ! 1) ! 1 = Some (20111 / 1000)"
    by (simp_all add: sheet_merged_def)
  have r: "round2 (10456 / 1000) = 1046 / 100" "round2 (20111 / 1000) = 2011 / 100"
    by (simp_all add: round_eval)
  from display_rounding [OF l(1,2)] v(1)
  have a: "snd (mrows sheet_shown ! 0) ! 1 = Some (round2 (10456 / 1000))"
    by (simp add: show_sheet)
  from display_rounding [OF l(3,4)] v(2)
  have b: "snd (mrows sheet_shown ! 1) ! 1 = Some (round2 (20111 / 1000))"
    by (simp add: show_sheet)
  have h: "html_table sheet_shown ! 0 ! 3 = u ''10.46''" "html_table sheet_shown ! 1 ! 3 = u ''20.11''"
    by (simp_all add: html_sheet_shown)
  from a b r have "snd (mrows sheet_shown ! 0) ! 1 = Some (1046 / 100)"
    "snd (mrows sheet_shown ! 1) ! 1 = Some (2011 / 100)" by simp_all
  with l v h show_sheet show ?thesis by simp
qed

section \<open>Reshape, then pivot (C1)\<close>























end
